theory Spec2Isabelle
  imports Main
begin

section \<open>JavaScript strings\<close>

text \<open>
  A JavaScript string is modelled as a \<^typ>\<open>string\<close>, one element for each code unit.
  The three string methods that \<^verbatim>\<open>bot.js\<close> relies on for its URL handling are written out:
  \<^verbatim>\<open>startsWith\<close>, \<^verbatim>\<open>includes\<close> and \<^verbatim>\<open>split\<close> with a string separator.
\<close>

fun startsWith :: "string \<Rightarrow> string \<Rightarrow> bool" where
  "startsWith s [] = True"
| "startsWith [] (c # p) = False"
| "startsWith (x # s) (c # p) = (x = c \<and> startsWith s p)"

fun includesStr :: "string \<Rightarrow> string \<Rightarrow> bool" where
  "includesStr [] p = startsWith [] p"
| "includesStr (x # s) p = (if startsWith (x # s) p then True else includesStr s p)"

text \<open>
  \<^verbatim>\<open>s.split(sep)\<close>: the pieces of \<open>s\<close> between the occurrences of \<open>sep\<close>, found from left to
  right without overlap. \<open>splitFrom\<close> scans the rest of the string, \<open>acc\<close> being the piece
  collected so far. With an empty separator JavaScript returns the code units one by one.
\<close>

function splitFrom :: "string \<Rightarrow> string \<Rightarrow> string \<Rightarrow> string list" where
  "splitFrom sep acc s =
     (if s = [] then [acc]
      else if sep \<noteq> [] \<and> startsWith s sep
        then acc # splitFrom sep [] (drop (length sep) s)
      else splitFrom sep (acc @ [hd s]) (tl s))"
  by pat_completeness auto
termination
  by (relation "measure (\<lambda>(sep, acc, s). length s)") auto

declare splitFrom.simps [simp del]

definition splitStr :: "string \<Rightarrow> string \<Rightarrow> string list" where
  "splitStr s sep = (if sep = [] then map (\<lambda>c. [c]) s else splitFrom sep [] s)"

text \<open>Indexing an array: \<^verbatim>\<open>xs[i]\<close> is \<^verbatim>\<open>undefined\<close> (here \<open>None\<close>) beyond the end.\<close>

definition at :: "'a list \<Rightarrow> nat \<Rightarrow> 'a option" where
  "at xs i = (if i < length xs then Some (xs ! i) else None)"

section \<open>URL validator\<close>

text \<open>
  \<^verbatim>\<open>normalizeUrl\<close> (bot.js, lines 55-61). The optional chaining \<^verbatim>\<open>[1]?.split('?')[0]\<close> gives
  \<^verbatim>\<open>undefined\<close> when there is no second piece, and the template literal then renders the
  text \<^verbatim>\<open>undefined\<close>.
\<close>

definition normalizeUrl :: "string \<Rightarrow> string" where
  "normalizeUrl url =
     (if includesStr url ''youtube.com/shorts/'' then
        (let videoId = (case at (splitStr url ''/shorts/'') 1 of
                          None \<Rightarrow> None
                        | Some seg \<Rightarrow> at (splitStr seg ''?'') 0)
         in ''https://www.youtube.com/watch?v='' @
              (case videoId of None \<Rightarrow> ''undefined'' | Some v \<Rightarrow> v))
      else url)"

text \<open>
  Values that the code throws or rejects a promise with: the text that the completion
  callback of \<^verbatim>\<open>exec\<close> builds from the captured standard error (line 96), an \<^verbatim>\<open>Error\<close> object
  of the runtime or of the messaging library (named by its code), or some falsy value.
\<close>

datatype thrown = DownloadError string | ErrorObject string | Falsy

fun truthy :: "thrown \<Rightarrow> bool" where
  "truthy (DownloadError stderr) = True"
| "truthy (ErrorObject code) = True"
| "truthy Falsy = False"

text \<open>
  What the program takes from its runtime and does not define itself: the WHATWG parser
  behind \<^verbatim>\<open>new URL(url)\<close>, which throws or yields a URL object of which only the host name
  is read, the built-in \<^verbatim>\<open>toLowerCase\<close> and \<^verbatim>\<open>trim\<close>, and the resolved path of the download
  directory (line 30).
\<close>

record runtime =
  newURL :: "string \<Rightarrow> thrown + string"
  toLowerCase :: "string \<Rightarrow> string"
  trim :: "string \<Rightarrow> string"
  downloadsDir :: string

definition SUPPORTED_DOMAINS :: "string list" where
  "SUPPORTED_DOMAINS =
     [''youtube.com'', ''youtu.be'', ''vimeo.com'', ''dailymotion.com'',
      ''soundcloud.com'', ''facebook.com'', ''1024terabox.com'', ''instagram.com'']"

text \<open>
  \<^verbatim>\<open>isSupportedDomain\<close> (lines 64-71): \<open>isSupportedDomain_try\<close> is the body of the
  \<^verbatim>\<open>try\<close> block, which may throw; the \<^verbatim>\<open>catch\<close> clause turns every throw into \<^verbatim>\<open>false\<close>.
\<close>

definition isSupportedDomain_try :: "runtime \<Rightarrow> string \<Rightarrow> thrown + bool" where
  "isSupportedDomain_try E url =
     (case newURL E url of
        Inl e \<Rightarrow> Inl e
      | Inr hostname \<Rightarrow> Inr (list_ex (\<lambda>domain. includesStr hostname domain) SUPPORTED_DOMAINS))"

definition isSupportedDomain :: "runtime \<Rightarrow> string \<Rightarrow> bool" where
  "isSupportedDomain E url =
     (case isSupportedDomain_try E url of Inl e \<Rightarrow> False | Inr b \<Rightarrow> b)"

section \<open>Output files\<close>

text \<open>
  The file name is the template \<^verbatim>\<open>${Date.now()}.${extension}\<close> (line 82): the clock reading, a
  count of milliseconds, printed in decimal. \<^verbatim>\<open>path.join\<close> puts the separator between the
  directory, which \<^verbatim>\<open>path.resolve\<close> has already normalised, and the file name.
\<close>

definition digitChar :: "nat \<Rightarrow> char" where
  "digitChar d = ''0123456789'' ! d"

function showNat :: "nat \<Rightarrow> string" where
  "showNat n = (if n < 10 then [digitChar n] else showNat (n div 10) @ [digitChar (n mod 10)])"
  by pat_completeness auto
termination
  by (relation "measure (\<lambda>n. n)") auto

declare showNat.simps [simp del]

definition pathJoin :: "string \<Rightarrow> string \<Rightarrow> string" where
  "pathJoin dir name = dir @ ''/'' @ name"

definition outputFile :: "runtime \<Rightarrow> nat \<Rightarrow> bool \<Rightarrow> string" where
  "outputFile E now isAudio =
     (let extension = (if isAudio then ''mp3'' else ''mp4'');
          fileName = showNat now @ ''.'' @ extension
      in pathJoin (downloadsDir E) fileName)"

section \<open>The state of the bot\<close>

text \<open>
  The texts handed to \<^verbatim>\<open>bot.sendMessage\<close>, one constructor for each literal of the source
  (each literal starts with an emoji, left out here):
  \<^item> \<open>QueueFull\<close>: "The download queue is full. Please wait until a slot becomes available."
  \<^item> \<open>InvalidUrl\<close>: "Please provide a valid URL."
  \<^item> \<open>Unsupported\<close>: "This URL is not supported."
  \<^item> \<open>Downloading isAudio\<close>: "Downloading audio..." or "Downloading video..."
  \<^item> \<open>Caught e\<close>: the caught value \<open>e\<close> itself, passed as the text
  \<^item> \<open>DownloadFailed\<close>: "Download failed. Please try again."
  \<^item> \<open>NoDownload\<close>: "No download in progress."
  \<^item> \<open>Stopped\<close>: "Download stopped successfully."
  \<^item> \<open>Hello firstName\<close>: "Hello, firstName! Welcome to the Media Downloader Bot! ..."
  \<^item> \<open>InvalidCommand\<close>: "Invalid command or message. Use /help command for available commands."
\<close>

datatype notice =
    QueueFull | InvalidUrl | Unsupported | Downloading bool | Caught thrown | DownloadFailed
  | NoDownload | Stopped | Hello string | InvalidCommand

text \<open>
  A child process started by \<^verbatim>\<open>exec\<close>: its command line, the output path of its job, and
  whether it is still running. The handle of a child is its position in \<open>children\<close>.
\<close>

record child =
  command :: string
  outputPath :: string
  alive :: bool

text \<open>
  The two module variables (lines 36 and 38) and the world the handlers act on: the child
  processes, the signals sent to them, the calls of \<^verbatim>\<open>bot.sendMessage\<close>, the calls of
  \<^verbatim>\<open>bot.sendAudio\<close> (\<open>True\<close>) and \<^verbatim>\<open>bot.sendVideo\<close> (\<open>False\<close>) with their file argument
  (\<open>None\<close> for \<^verbatim>\<open>undefined\<close>), the paths that exist on disk, and the action log.
\<close>

record bot =
  activeDownloadCount :: int
  currentDownloadProcess :: "nat option"
  children :: "child list"
  signals :: "(nat \<times> string) list"
  outbox :: "(int \<times> notice) list"
  transmissions :: "(int \<times> bool \<times> string option) list"
  files :: "string set"
  userLog :: "(int \<times> string) list"

definition maxConcurrentDownloads :: int where
  "maxConcurrentDownloads = 5"

definition startup :: bot where
  "startup = \<lparr>activeDownloadCount = 0, currentDownloadProcess = None, children = [],
     signals = [], outbox = [], transmissions = [], files = {}, userLog = []\<rparr>"

definition sendMessage :: "int \<Rightarrow> notice \<Rightarrow> bot \<Rightarrow> bot" where
  "sendMessage chatId n s = s\<lparr>outbox := outbox s @ [(chatId, n)]\<rparr>"

text \<open>\<^verbatim>\<open>logUserAction\<close> (lines 44-52) appends one record; its time stamp is left out.\<close>

definition logUserAction :: "int \<Rightarrow> string \<Rightarrow> bot \<Rightarrow> bot" where
  "logUserAction chatId action s = s\<lparr>userLog := userLog s @ [(chatId, action)]\<rparr>"

section \<open>Download job runner and admission control\<close>

text \<open>
  \<^verbatim>\<open>downloadMedia\<close> (lines 74-109) returns \<^verbatim>\<open>undefined\<close> when the queue is full, and otherwise
  a promise that the completion callback of the child it has started will settle. The
  executor of the promise runs at once, so the child is started and registered before
  \<^verbatim>\<open>downloadMedia\<close> returns. \<open>now\<close> is the reading of \<^verbatim>\<open>Date.now()\<close>.
\<close>

datatype download = ReturnedUndefined | Pending nat

definition doubleQuote :: char where
  "doubleQuote = CHR 0x22"

definition commandLine :: "string \<Rightarrow> string \<Rightarrow> string \<Rightarrow> string" where
  "commandLine format filePath url =
     [doubleQuote] @ ''C:/ytdlp/yt-dlp.exe'' @ [doubleQuote] @ '' -f '' @ format @
     '' -o '' @ [doubleQuote] @ filePath @ [doubleQuote] @ '' '' @ url"

definition downloadMedia ::
  "runtime \<Rightarrow> string \<Rightarrow> string \<Rightarrow> bool \<Rightarrow> int \<Rightarrow> nat \<Rightarrow> bot \<Rightarrow> download \<times> bot" where
  "downloadMedia E url format isAudio chatId now s =
     (if activeDownloadCount s \<ge> maxConcurrentDownloads
      then (ReturnedUndefined, sendMessage chatId QueueFull s)
      else
        (let s1 = s\<lparr>activeDownloadCount := activeDownloadCount s + 1\<rparr>;
             filePath = outputFile E now isAudio;
             pid = length (children s1);
             c = \<lparr>command = commandLine format filePath url, outputPath = filePath,
                  alive = True\<rparr>
         in (Pending pid,
             s1\<lparr>children := children s1 @ [c], currentDownloadProcess := Some pid\<rparr>)))"

text \<open>
  How a child ended, as the completion callback sees it: \<^verbatim>\<open>error\<close> is null and the standard
  output is at hand, or \<^verbatim>\<open>error\<close> is set (non-zero exit, death by a signal, failure to start)
  and the standard error is at hand.
\<close>

datatype ending = Succeeded string | Failed string

text \<open>The value an awaited promise settles with; \<open>Resolved None\<close> is \<^verbatim>\<open>undefined\<close>.\<close>

datatype settled = Resolved "string option" | Rejected thrown

text \<open>The completion callback given to \<^verbatim>\<open>exec\<close> (lines 90-101).\<close>

definition execCallback :: "string \<Rightarrow> ending \<Rightarrow> bot \<Rightarrow> settled \<times> bot" where
  "execCallback filePath e s =
     (let s1 = s\<lparr>activeDownloadCount := activeDownloadCount s - 1,
                  currentDownloadProcess := None\<rparr>
      in case e of
           Failed stderr \<Rightarrow> (Rejected (DownloadError stderr), s1)
         | Succeeded stdout \<Rightarrow> (Resolved (Some filePath), s1))"

text \<open>The listener added for the \<^verbatim>\<open>close\<close> event of the child (lines 104-107).\<close>

definition closeListener :: "bot \<Rightarrow> bot" where
  "closeListener s =
     s\<lparr>activeDownloadCount := activeDownloadCount s - 1, currentDownloadProcess := None\<rparr>"

text \<open>
  The end of a child process, however it comes about. Node's \<^verbatim>\<open>exec\<close> installs its own exit
  handler, the one that invokes the completion callback, as a listener of the child's
  \<^verbatim>\<open>close\<close> event before it returns the child; line 104 adds a second listener of the same
  event. When the child has ended and its streams are closed, the event is emitted once and
  both run, in the order of registration. (When the child cannot be started, the callback
  runs on the \<^verbatim>\<open>error\<close> event and the second listener on the \<^verbatim>\<open>close\<close> event that follows,
  with the same effect on the state.) The result is \<open>None\<close> when \<open>pid\<close> is not a running
  child: the event is emitted once for each child.
\<close>

definition processTerminates :: "nat \<Rightarrow> ending \<Rightarrow> bot \<Rightarrow> (settled \<times> bot) option" where
  "processTerminates pid e s =
     (case at (children s) pid of
        None \<Rightarrow> None
      | Some c \<Rightarrow>
          if alive c then
            (let s0 = s\<lparr>children := (children s)[pid := c\<lparr>alive := False\<rparr>]\<rparr>;
                 (r, s1) = execCallback (outputPath c) e s0
             in Some (r, closeListener s1))
          else None)"

section \<open>Delivery pipeline\<close>

text \<open>
  The handler of \<^verbatim>\<open>/audio\<close> and \<^verbatim>\<open>/video\<close> (lines 150-188) is an \<^verbatim>\<open>async\<close> function with two
  \<^verbatim>\<open>await\<close>s, so it runs in three parts, and other events may come between them.
  \<open>onAudioVideo\<close> is the part up to the first \<^verbatim>\<open>await\<close>; its arguments are the two groups that
  the regular expression has captured. It yields \<open>None\<close> when the handler has returned, and
  otherwise what \<^verbatim>\<open>downloadMedia\<close> returned, which the handler awaits.
\<close>

datatype command = Audio | Video

definition commandName :: "command \<Rightarrow> string" where
  "commandName c = (case c of Audio \<Rightarrow> ''audio'' | Video \<Rightarrow> ''video'')"

definition onAudioVideo ::
  "runtime \<Rightarrow> command \<Rightarrow> string \<Rightarrow> int \<Rightarrow> nat \<Rightarrow> bot \<Rightarrow> download option \<times> bot" where
  "onAudioVideo E c arg chatId now s =
     (let url = trim E arg in
      if url = [] \<or> \<not> startsWith url ''http''
      then (None, sendMessage chatId InvalidUrl s)
      else
        (let normalizedUrl = normalizeUrl url in
         if \<not> isSupportedDomain E normalizedUrl
         then (None, sendMessage chatId Unsupported s)
         else
           (let isAudio = (c = Audio);
                format = (if isAudio then ''bestaudio'' else ''bestvideo+bestaudio'');
                s1 = sendMessage chatId (Downloading isAudio) s;
                s2 = logUserAction chatId (commandName c @ '' '' @ normalizedUrl) s1;
                (d, s3) = downloadMedia E normalizedUrl format isAudio chatId now s2
            in (Some d, s3))))"

text \<open>The \<^verbatim>\<open>catch\<close> clause (lines 184-187): \<^verbatim>\<open>error || '... Download failed. Please try again.'\<close>.\<close>

definition catchClause :: "int \<Rightarrow> thrown \<Rightarrow> bot \<Rightarrow> bot" where
  "catchClause chatId e s =
     sendMessage chatId (if truthy e then Caught e else DownloadFailed) s"

text \<open>
  The second part runs when the awaited value has settled: with \<open>Resolved None\<close> at once
  after \<^verbatim>\<open>downloadMedia\<close> has returned \<^verbatim>\<open>undefined\<close>, with the outcome of the completion
  callback otherwise. It calls \<^verbatim>\<open>bot.sendAudio\<close> or \<^verbatim>\<open>bot.sendVideo\<close> with the value
  (lines 177-181) and yields the file argument of the transmission it now awaits, or
  \<open>None\<close> when the \<^verbatim>\<open>catch\<close> clause has ended the handler.
\<close>

definition afterDownload ::
  "int \<Rightarrow> bool \<Rightarrow> settled \<Rightarrow> bot \<Rightarrow> string option option \<times> bot" where
  "afterDownload chatId isAudio r s =
     (case r of
        Rejected e \<Rightarrow> (None, catchClause chatId e s)
      | Resolved filePath \<Rightarrow>
          (Some filePath,
           s\<lparr>transmissions := transmissions s @ [(chatId, isAudio, filePath)]\<rparr>))"

text \<open>
  \<^verbatim>\<open>fs.unlinkSync\<close>: a \<^verbatim>\<open>TypeError\<close> when the path is \<^verbatim>\<open>undefined\<close>, \<^verbatim>\<open>ENOENT\<close> when no such
  file exists; otherwise the file is gone.
\<close>

definition unlinkSync :: "string option \<Rightarrow> bot \<Rightarrow> thrown + bot" where
  "unlinkSync filePath s =
     (case filePath of
        None \<Rightarrow> Inl (ErrorObject ''ERR_INVALID_ARG_TYPE'')
      | Some p \<Rightarrow>
          if p \<in> files s then Inr (s\<lparr>files := files s - {p}\<rparr>)
          else Inl (ErrorObject ''ENOENT''))"

text \<open>
  The third part runs when the transmission has settled: \<open>None\<close> when it succeeded, the
  rejection otherwise. Success is followed by the deletion of the file (line 183).
\<close>

definition afterTransmission :: "int \<Rightarrow> string option \<Rightarrow> thrown option \<Rightarrow> bot \<Rightarrow> bot" where
  "afterTransmission chatId filePath tx s =
     (case tx of
        Some e \<Rightarrow> catchClause chatId e s
      | None \<Rightarrow>
          (case unlinkSync filePath s of
             Inl e \<Rightarrow> catchClause chatId e s
           | Inr s' \<Rightarrow> s'))"

section \<open>Active job registry: the stop command\<close>

text \<open>The handler of \<^verbatim>\<open>/stop\<close> (lines 227-239).\<close>

definition onStop :: "int \<Rightarrow> bot \<Rightarrow> bot" where
  "onStop chatId s =
     (case currentDownloadProcess s of
        None \<Rightarrow> sendMessage chatId NoDownload s
      | Some pid \<Rightarrow>
          sendMessage chatId Stopped
            (s\<lparr>signals := signals s @ [(pid, ''SIGINT'')], currentDownloadProcess := None\<rparr>))"

section \<open>Fallback message handler\<close>

text \<open>
  An inbound message: the chat it came from, the first name of the chat when it has one,
  and the text, absent for a photo, a sticker or a voice message.
\<close>

record message =
  chat_id :: int
  first_name :: "string option"
  msg_text :: "string option"

text \<open>The result of a handler that may throw, with the state it leaves.\<close>

datatype outcome = Returned bot | Threw thrown bot

text \<open>
  The listener of every message (lines 265-279). Reading \<^verbatim>\<open>toLowerCase\<close> off an absent text
  throws a \<^verbatim>\<open>TypeError\<close>. \<^verbatim>\<open>msg.chat.first_name || 'User'\<close> falls back for an absent and for an
  empty name.
\<close>

definition onMessage :: "runtime \<Rightarrow> message \<Rightarrow> bot \<Rightarrow> outcome" where
  "onMessage E msg s =
     (let chatId = chat_id msg in
      case msg_text msg of
        None \<Rightarrow> Threw (ErrorObject ''TypeError'') s
      | Some t \<Rightarrow>
          (let text = trim E (toLowerCase E t) in
           if text = ''hi'' \<or> text = ''hello'' then
             (let firstName = (case first_name msg of
                                 None \<Rightarrow> ''User''
                               | Some n \<Rightarrow> if n = [] then ''User'' else n)
              in Returned (sendMessage chatId (Hello firstName) s))
           else if \<not> startsWith text ''/'' then Returned (sendMessage chatId InvalidCommand s)
           else Returned s))"

section \<open>Sample runtime and sample runs\<close>

text \<open>
  A runtime to evaluate the handlers on concrete inputs. Its parser accepts a URL only with
  the scheme \<^verbatim>\<open>https\<close> and takes the text up to the next slash as the host name; its
  \<^verbatim>\<open>toLowerCase\<close> maps the capital letters of ASCII, and its \<^verbatim>\<open>trim\<close> removes blanks.
\<close>

definition sampleParser :: "string \<Rightarrow> thrown + string" where
  "sampleParser url =
     (if startsWith url ''https://''
      then Inr (takeWhile (\<lambda>c. c \<noteq> CHR ''/'') (drop 8 url))
      else Inl (ErrorObject ''ERR_INVALID_URL''))"

definition sampleLower :: "string \<Rightarrow> string" where
  "sampleLower t =
     map (\<lambda>c. case map_of (zip ''ABCDEFGHIJKLMNOPQRSTUVWXYZ'' ''abcdefghijklmnopqrstuvwxyz'') c of
                 None \<Rightarrow> c
               | Some l \<Rightarrow> l) t"

definition sampleTrim :: "string \<Rightarrow> string" where
  "sampleTrim t =
     rev (dropWhile (\<lambda>c. c = CHR '' '') (rev (dropWhile (\<lambda>c. c = CHR '' '') t)))"

definition sampleRuntime :: runtime where
  "sampleRuntime = \<lparr>newURL = sampleParser, toLowerCase = sampleLower, trim = sampleTrim,
     downloadsDir = ''/srv/bot/downloads''\<rparr>"

text \<open>
  \<open>request now s\<close>: \<^verbatim>\<open>downloadMedia\<close> is called for an audio download at clock reading
  \<open>now\<close>, and \<open>afterExit pid e s\<close>: the child \<open>pid\<close> ends (the state stays as it is when
  \<open>pid\<close> is not running).
\<close>

definition request :: "nat \<Rightarrow> bot \<Rightarrow> bot" where
  "request now s =
     snd (downloadMedia sampleRuntime ''https://youtu.be/abc123'' ''bestaudio'' True 7 now s)"

definition afterExit :: "nat \<Rightarrow> ending \<Rightarrow> bot \<Rightarrow> bot" where
  "afterExit pid e s = (case processTerminates pid e s of None \<Rightarrow> s | Some (r, s') \<Rightarrow> s')"

text \<open>
  \<open>oneJob\<close> is the bot with its first job running, and \<open>fiveJobs\<close> the bot after five calls
  in a row. In \<open>allDone\<close> the five jobs have ended. In \<open>sixAfterOne\<close> the first job has ended
  and six further calls have followed with no child ending in between.
\<close>

definition oneJob :: bot where
  "oneJob = request 1700000000000 startup"

definition fiveJobs :: bot where
  "fiveJobs = request 1700000000004 (request 1700000000003 (request 1700000000002
     (request 1700000000001 oneJob)))"

definition allDone :: bot where
  "allDone = afterExit 4 (Succeeded ''done'') (afterExit 3 (Succeeded ''done'')
     (afterExit 2 (Failed ''killed'') (afterExit 1 (Failed ''exit 1'')
     (afterExit 0 (Succeeded ''done'') fiveJobs))))"

definition sixAfterOne :: bot where
  "sixAfterOne = request 1700000000006 (request 1700000000005 (request 1700000000004
     (request 1700000000003 (request 1700000000002 (request 1700000000001
     (afterExit 0 (Succeeded ''done'') oneJob))))))"

text \<open>
  \<open>turnedAway\<close>: chat 9 sends \<^verbatim>\<open>/audio https://youtu.be/abc123\<close> while five jobs are running,
  and the handler has reached its first \<^verbatim>\<open>await\<close>. \<open>turnedAwayOn\<close>: the handler has gone on
  with the \<^verbatim>\<open>undefined\<close> that \<^verbatim>\<open>downloadMedia\<close> returned.
\<close>

definition turnedAway :: bot where
  "turnedAway =
     snd (onAudioVideo sampleRuntime Audio ''https://youtu.be/abc123'' 9 1700000000005 fiveJobs)"

definition turnedAwayOn :: bot where
  "turnedAwayOn = snd (afterDownload 9 True (Resolved None) turnedAway)"

section \<open>Facts about the string methods\<close>

lemma startsWith_iff: "startsWith s p \<longleftrightarrow> (\<exists>r. s = p @ r)"
  by (induction s p rule: startsWith.induct) auto

lemma includesStr_Cons: "includesStr (x # s) p \<longleftrightarrow> startsWith (x # s) p \<or> includesStr s p"
  by simp

lemma startsWith_includesStr: "startsWith s p \<Longrightarrow> includesStr s p"
  by (cases s) simp_all

lemma splitFrom_Nil: "splitFrom sep acc [] = [acc]"
  by (simp add: splitFrom.simps)

lemma splitFrom_hit:
  "sep \<noteq> [] \<Longrightarrow> splitFrom sep acc (sep @ r) = acc # splitFrom sep [] r"
  by (subst splitFrom.simps) (simp add: startsWith_iff)

lemma splitFrom_miss:
  "\<not> startsWith (x # s) sep \<Longrightarrow> splitFrom sep acc (x # s) = splitFrom sep (acc @ [x]) s"
  by (subst splitFrom.simps) simp

lemma splitFrom_nonempty: "splitFrom sep acc s \<noteq> []"
  by (induction sep acc s rule: splitFrom.induct) (subst splitFrom.simps, simp)

text \<open>
  When no occurrence of the separator starts inside \<open>p\<close>, the first piece of
  \<open>p @ sep @ r\<close> is \<open>p\<close>.
\<close>

lemma splitFrom_first:
  "sep \<noteq> [] \<Longrightarrow> \<not> includesStr (p @ butlast sep) sep \<Longrightarrow>
   splitFrom sep acc (p @ sep @ r) = (acc @ p) # splitFrom sep [] r"
proof (induction p arbitrary: acc)
  case Nil
  then show ?case by (simp add: splitFrom_hit)
next
  case (Cons x p)
  have no: "\<not> startsWith (x # p @ sep @ r) sep"
  proof
    assume "startsWith (x # p @ sep @ r) sep"
    then obtain t where t: "x # p @ sep @ r = sep @ t" by (auto simp: startsWith_iff)
    have "length sep \<le> length ((x # p) @ butlast sep)" by simp
    have "take (length sep) (x # p @ sep @ r) = sep" unfolding t by simp
    moreover have "take (length sep) (x # p @ sep @ r) = take (length sep) ((x # p) @ butlast sep)"
      using Cons.prems(1) by (simp add: take_Cons' butlast_conv_take)
    ultimately have "take (length sep) ((x # p) @ butlast sep) = sep" by simp
    then have "(x # p) @ butlast sep = sep @ drop (length sep) ((x # p) @ butlast sep)"
      by (metis append_take_drop_id)
    then have "startsWith ((x # p) @ butlast sep) sep"
      unfolding startsWith_iff by blast
    then show False using Cons.prems(2) startsWith_includesStr by blast
  qed
  have "\<not> includesStr (p @ butlast sep) sep" using Cons.prems(2) by (simp split: if_splits)
  then have "splitFrom sep (acc @ [x]) (p @ sep @ r) = ((acc @ [x]) @ p) # splitFrom sep [] r"
    using Cons.IH[OF Cons.prems(1)] by blast
  then show ?case using no by (simp add: splitFrom_miss)
qed

lemma hd_splitFrom_acc: "hd (splitFrom sep acc s) = acc @ hd (splitFrom sep [] s)"
proof (induction s arbitrary: acc)
  case Nil
  then show ?case by (simp add: splitFrom_Nil)
next
  case (Cons x s)
  show ?case
  proof (cases "sep \<noteq> [] \<and> startsWith (x # s) sep")
    case True
    then show ?thesis by (subst (1 2) splitFrom.simps) simp
  next
    case False
    then have a: "splitFrom sep acc (x # s) = splitFrom sep (acc @ [x]) s"
      by (subst splitFrom.simps) auto
    from False have b: "splitFrom sep [] (x # s) = splitFrom sep [x] s"
      by (subst splitFrom.simps) auto
    show ?thesis using Cons.IH[of "acc @ [x]"] Cons.IH[of "[x]"] by (simp add: a b)
  qed
qed

lemma takeWhile_hd_splitFrom:
  "sep \<noteq> [] \<Longrightarrow> c \<notin> set sep \<Longrightarrow> \<not> includesStr (takeWhile (\<lambda>x. x \<noteq> c) r) sep \<Longrightarrow>
   takeWhile (\<lambda>x. x \<noteq> c) (hd (splitFrom sep [] r)) = takeWhile (\<lambda>x. x \<noteq> c) r"
proof (induction r)
  case Nil
  then show ?case by (simp add: splitFrom_Nil)
next
  case (Cons x r)
  have no: "\<not> startsWith (x # r) sep"
  proof
    assume "startsWith (x # r) sep"
    then obtain t where t: "x # r = sep @ t" by (auto simp: startsWith_iff)
    have "takeWhile (\<lambda>x. x \<noteq> c) (sep @ t) = sep @ takeWhile (\<lambda>x. x \<noteq> c) t"
      by (rule takeWhile_append2) (use Cons.prems(2) in auto)
    then have "startsWith (takeWhile (\<lambda>x. x \<noteq> c) (x # r)) sep"
      unfolding t startsWith_iff by blast
    then show False using Cons.prems(3) startsWith_includesStr by blast
  qed
  then have step: "splitFrom sep [] (x # r) = splitFrom sep [x] r"
    by (simp add: splitFrom_miss)
  show ?case
  proof (cases "x = c")
    case True
    have "hd (splitFrom sep [] (x # r)) = [x] @ hd (splitFrom sep [] r)"
      by (simp only: step hd_splitFrom_acc[of sep "[x]"])
    then show ?thesis using True by simp
  next
    case False
    then have "\<not> includesStr (takeWhile (\<lambda>x. x \<noteq> c) r) sep"
      using Cons.prems(3) by (simp split: if_splits)
    then show ?thesis using Cons.IH[OF Cons.prems(1,2)] False
      by (simp add: step hd_splitFrom_acc[of sep "[x]"])
  qed
qed

lemma hd_splitFrom_single:
  "hd (splitFrom [c] acc s) = acc @ takeWhile (\<lambda>x. x \<noteq> c) s"
proof (induction s arbitrary: acc)
  case Nil
  then show ?case by (simp add: splitFrom_Nil)
next
  case (Cons x s)
  show ?case
  proof (cases "x = c")
    case True
    then have "splitFrom [c] acc (x # s) = acc # splitFrom [c] [] s"
      using splitFrom_hit[of "[c]" acc s] by simp
    then show ?thesis using True by simp
  next
    case False
    then have "\<not> startsWith (x # s) [c]" by simp
    then show ?thesis using Cons.IH[of "acc @ [x]"] False by (simp add: splitFrom_miss)
  qed
qed

lemma includesStr_iff: "includesStr s p \<longleftrightarrow> (\<exists>a b. s = a @ p @ b)"
proof (induction s)
  case Nil
  then show ?case by (cases p) auto
next
  case (Cons x s)
  show ?case
  proof
    assume "includesStr (x # s) p"
    then consider "startsWith (x # s) p" | "includesStr s p" by (auto split: if_splits)
    then show "\<exists>a b. x # s = a @ p @ b"
    proof cases
      case 1
      then obtain r where "x # s = p @ r" by (auto simp: startsWith_iff)
      then have "x # s = [] @ p @ r" by simp
      then show ?thesis by blast
    next
      case 2
      then obtain a b where "s = a @ p @ b" using Cons.IH by blast
      then have "x # s = (x # a) @ p @ b" by simp
      then show ?thesis by blast
    qed
  next
    assume "\<exists>a b. x # s = a @ p @ b"
    then obtain a b where ab: "x # s = a @ p @ b" by blast
    show "includesStr (x # s) p"
    proof (cases a)
      case Nil
      then have "startsWith (x # s) p" using ab by (auto simp: startsWith_iff)
      then show ?thesis by simp
    next
      case (Cons y a')
      then have "s = a' @ p @ b" using ab by simp
      then have "includesStr s p" using Cons.IH by blast
      then show ?thesis by simp
    qed
  qed
qed

lemma at_0: "xs \<noteq> [] \<Longrightarrow> at xs 0 = Some (hd xs)"
  by (cases xs) (simp_all add: at_def)

lemma at_1: "xs \<noteq> [] \<Longrightarrow> at (x # xs) (Suc 0) = Some (hd xs)"
  by (cases xs) (simp_all add: at_def)

lemma first_query_piece: "at (splitStr seg ''?'') 0 = Some (takeWhile (\<lambda>c. c \<noteq> CHR ''?'') seg)"
  using hd_splitFrom_single[of "CHR ''?''" "[]" seg]
  by (simp add: splitStr_def at_0 splitFrom_nonempty)

lemma normalizeUrl_marker:
  assumes "\<not> includesStr (p @ ''youtube.com/shorts'') ''/shorts/''"
  shows "normalizeUrl (p @ ''youtube.com/shorts/'' @ r) =
           ''https://www.youtube.com/watch?v='' @
             takeWhile (\<lambda>c. c \<noteq> CHR ''?'') (hd (splitFrom ''/shorts/'' [] r))"
proof -
  let ?url = "p @ ''youtube.com/shorts/'' @ r"
  have inc: "includesStr ?url ''youtube.com/shorts/''"
    unfolding includesStr_iff by blast
  have eq: "?url = (p @ ''youtube.com'') @ ''/shorts/'' @ r" by simp
  have nb: "(p @ ''youtube.com'') @ butlast ''/shorts/'' = p @ ''youtube.com/shorts''" by simp
  have "\<not> includesStr ((p @ ''youtube.com'') @ butlast ''/shorts/'') ''/shorts/''"
    unfolding nb by (rule assms)
  then have "splitFrom ''/shorts/'' [] ((p @ ''youtube.com'') @ ''/shorts/'' @ r) =
      ([] @ (p @ ''youtube.com'')) # splitFrom ''/shorts/'' [] r"
    by (intro splitFrom_first) simp_all
  then have "splitFrom ''/shorts/'' [] ?url = (p @ ''youtube.com'') # splitFrom ''/shorts/'' [] r"
    by (subst eq) simp
  then have "at (splitStr ?url ''/shorts/'') 1 = Some (hd (splitFrom ''/shorts/'' [] r))"
    by (simp add: splitStr_def at_1 splitFrom_nonempty)
  then show ?thesis
    using inc by (simp add: normalizeUrl_def first_query_piece)
qed

section \<open>Facts about admission and child processes\<close>

lemma downloadMedia_admitted:
  "activeDownloadCount s < 5 \<Longrightarrow>
   downloadMedia E url format isAudio chatId now s =
     (Pending (length (children s)),
      s\<lparr>activeDownloadCount := activeDownloadCount s + 1,
        children := children s @
          [\<lparr>command = commandLine format (outputFile E now isAudio) url,
            outputPath = outputFile E now isAudio, alive = True\<rparr>],
        currentDownloadProcess := Some (length (children s))\<rparr>)"
  by (simp add: downloadMedia_def maxConcurrentDownloads_def Let_def)

lemma downloadMedia_rejected:
  "5 \<le> activeDownloadCount s \<Longrightarrow>
   downloadMedia E url format isAudio chatId now s =
     (ReturnedUndefined, s\<lparr>outbox := outbox s @ [(chatId, QueueFull)]\<rparr>)"
  by (simp add: downloadMedia_def maxConcurrentDownloads_def sendMessage_def)

lemma processTerminates_running:
  "pid < length (children s) \<Longrightarrow> alive (children s ! pid) \<Longrightarrow>
   processTerminates pid e s =
     Some (case e of Failed stderr \<Rightarrow> Rejected (DownloadError stderr)
                   | Succeeded stdout \<Rightarrow> Resolved (Some (outputPath (children s ! pid))),
           s\<lparr>children := (children s)[pid := (children s ! pid)\<lparr>alive := False\<rparr>],
             activeDownloadCount := activeDownloadCount s - 2,
             currentDownloadProcess := None\<rparr>)"
  by (cases e) (simp_all add: processTerminates_def at_def execCallback_def closeListener_def)

lemma processTerminates_count:
  "processTerminates pid e s = Some (r, s') \<Longrightarrow>
   activeDownloadCount s' = activeDownloadCount s - 2"
  by (cases e)
     (auto simp: processTerminates_def execCallback_def closeListener_def
           split: option.splits if_splits)

lemma oneJob_eq:
  "oneJob = \<lparr>activeDownloadCount = 1, currentDownloadProcess = Some 0,
     children = [\<lparr>command = commandLine ''bestaudio'' ''/srv/bot/downloads/1700000000000.mp3'' ''https://youtu.be/abc123'',
                 outputPath = ''/srv/bot/downloads/1700000000000.mp3'', alive = True\<rparr>],
     signals = [], outbox = [], transmissions = [], files = {}, userLog = []\<rparr>"
  by (simp add: oneJob_def request_def downloadMedia_admitted startup_def outputFile_def
      pathJoin_def sampleRuntime_def showNat.simps digitChar_def)

lemma request_admitted:
  "activeDownloadCount s < 5 \<Longrightarrow>
   request now s =
     s\<lparr>activeDownloadCount := activeDownloadCount s + 1,
       children := children s @
         [\<lparr>command = commandLine ''bestaudio'' (outputFile sampleRuntime now True)
                       ''https://youtu.be/abc123'',
           outputPath = outputFile sampleRuntime now True, alive = True\<rparr>],
       currentDownloadProcess := Some (length (children s))\<rparr>"
  by (simp add: request_def downloadMedia_admitted)

lemma afterExit_running:
  "pid < length (children s) \<Longrightarrow> alive (children s ! pid) \<Longrightarrow>
   afterExit pid e s =
     s\<lparr>children := (children s)[pid := (children s ! pid)\<lparr>alive := False\<rparr>],
       activeDownloadCount := activeDownloadCount s - 2,
       currentDownloadProcess := None\<rparr>"
  by (simp add: afterExit_def processTerminates_running)

lemma fiveJobs_count: "activeDownloadCount fiveJobs = 5"
  by (simp add: fiveJobs_def oneJob_def startup_def request_admitted)

lemma fiveJobs_outbox: "outbox fiveJobs = []"
  by (simp add: fiveJobs_def oneJob_def startup_def request_admitted)

lemma downloadMedia_capacity:
  "activeDownloadCount s \<le> maxConcurrentDownloads \<Longrightarrow>
   activeDownloadCount (snd (downloadMedia E url format isAudio chatId now s))
     \<le> maxConcurrentDownloads"
  by (simp add: downloadMedia_def sendMessage_def Let_def)

lemma processTerminates_capacity:
  "activeDownloadCount s \<le> maxConcurrentDownloads \<Longrightarrow>
   processTerminates pid e s = Some (r, s') \<Longrightarrow>
   activeDownloadCount s' \<le> maxConcurrentDownloads"
  by (drule processTerminates_count) simp

lemma sample_supported: "isSupportedDomain sampleRuntime ''https://youtu.be/abc123''"
  by (simp add: isSupportedDomain_def isSupportedDomain_try_def sampleRuntime_def
      sampleParser_def SUPPORTED_DOMAINS_def)

lemma sample_normalize: "normalizeUrl ''https://youtu.be/abc123'' = ''https://youtu.be/abc123''"
  by (simp add: normalizeUrl_def)

lemma turnedAway_eq:
  "onAudioVideo sampleRuntime Audio ''https://youtu.be/abc123'' 9 1700000000005 fiveJobs =
     (Some ReturnedUndefined,
      fiveJobs\<lparr>outbox := [(9, Downloading True), (9, QueueFull)],
        userLog := [(9, ''audio https://youtu.be/abc123'')]\<rparr>)"
proof -
  have t: "trim sampleRuntime ''https://youtu.be/abc123'' = ''https://youtu.be/abc123''"
    by (simp add: sampleRuntime_def sampleTrim_def)
  have f: "userLog fiveJobs = []"
    by (simp add: fiveJobs_def oneJob_def startup_def request_admitted)
  show ?thesis
    unfolding onAudioVideo_def t Let_def sample_normalize
    by (simp add: sample_supported sendMessage_def logUserAction_def downloadMedia_rejected
        fiveJobs_count fiveJobs_outbox f commandName_def)
qed

section \<open>Facts about file names\<close>

lemma digitChar_inj:
  assumes "a < 10" "b < 10" "digitChar a = digitChar b"
  shows "a = b"
proof -
  have d: "distinct ''0123456789''" by simp
  have "length ''0123456789'' = 10" by simp
  with assms nth_eq_iff_index_eq[OF d, of a b] show ?thesis
    unfolding digitChar_def by simp
qed

lemma showNat_nonempty: "showNat n \<noteq> []"
  by (subst showNat.simps) simp

lemma showNat_inj: "showNat m = showNat n \<Longrightarrow> m = n"
proof (induction m arbitrary: n rule: showNat.induct)
  case (1 m)
  show ?case
  proof (cases "m < 10")
    case small: True
    then have m: "showNat m = [digitChar m]" by (subst showNat.simps) simp
    show ?thesis
    proof (cases "n < 10")
      case True
      then have "showNat n = [digitChar n]" by (subst showNat.simps) simp
      with m "1.prems" small True show ?thesis by (simp add: digitChar_inj)
    next
      case False
      then have "showNat n = showNat (n div 10) @ [digitChar (n mod 10)]"
        by (subst showNat.simps) simp
      with m "1.prems" have "showNat (n div 10) = []" by simp
      then show ?thesis by (simp add: showNat_nonempty)
    qed
  next
    case big: False
    then have m: "showNat m = showNat (m div 10) @ [digitChar (m mod 10)]"
      by (subst showNat.simps) simp
    show ?thesis
    proof (cases "n < 10")
      case True
      then have "showNat n = [digitChar n]" by (subst showNat.simps) simp
      with m "1.prems" have "showNat (m div 10) = []" by simp
      then show ?thesis by (simp add: showNat_nonempty)
    next
      case False
      then have "showNat n = showNat (n div 10) @ [digitChar (n mod 10)]"
        by (subst showNat.simps) simp
      with m "1.prems" have eq: "showNat (m div 10) = showNat (n div 10)"
        and dg: "digitChar (m mod 10) = digitChar (n mod 10)" by simp_all
      from "1.IH"[OF big eq] have q: "m div 10 = n div 10" .
      have r: "m mod 10 = n mod 10" by (rule digitChar_inj[OF _ _ dg]) simp_all
      have "m = 10 * (m div 10) + m mod 10" by simp
      also have "\<dots> = 10 * (n div 10) + n mod 10" by (simp only: q r)
      also have "\<dots> = n" by simp
      finally show ?thesis .
    qed
  qed
qed

lemma outputFile_eq_iff:
  "outputFile E t1 a1 = outputFile E t2 a2 \<longleftrightarrow> t1 = t2 \<and> a1 = a2"
proof
  assume h: "outputFile E t1 a1 = outputFile E t2 a2"
  let ?x1 = "if a1 then ''mp3'' else ''mp4''"
  let ?x2 = "if a2 then ''mp3'' else ''mp4''"
  from h have "showNat t1 @ ''.'' @ ?x1 = showNat t2 @ ''.'' @ ?x2"
    by (simp add: outputFile_def pathJoin_def Let_def)
  moreover have "(showNat t1 @ (''.'' @ ?x1) = showNat t2 @ (''.'' @ ?x2)) =
      (showNat t1 = showNat t2 \<and> ''.'' @ ?x1 = ''.'' @ ?x2)"
    by (rule append_eq_append_conv) simp
  ultimately have "showNat t1 = showNat t2 \<and> ?x1 = ?x2" by simp
  then show "t1 = t2 \<and> a1 = a2" by (auto dest: showNat_inj split: if_splits)
next
  assume "t1 = t2 \<and> a1 = a2"
  then show "outputFile E t1 a1 = outputFile E t2 a2" by simp
qed

lemma downloadMedia_Pending:
  assumes "downloadMedia E url format isAudio chatId now s = (Pending pid, s')"
  shows "map_option outputPath (at (children s') pid) = Some (outputFile E now isAudio)"
  using assms
  by (auto simp: downloadMedia_def Let_def at_def nth_append split: if_splits)

section \<open>Admission slots\<close>

text \<open>
  C1. The claim: for every download job the admission slot is released, that is
  \<open>activeDownloadCount\<close> is decremented, exactly once when the process of the job ends, by
  whatever path, and never more than once for a job. The code does not do this: the
  completion callback (line 91) and the \<^verbatim>\<open>close\<close> listener (line 105) both decrement, and
  both run at the end of every child (\<open>processTerminates_count\<close>). With one job running the
  count is 1; when its child ends, with success or after a kill, the count is \<open>-1\<close>.
\<close>

theorem slot_released_twice:
  "activeDownloadCount oneJob = 1 \<and>
   processTerminates 0 (Succeeded ''done'') oneJob \<noteq> None \<and>
   activeDownloadCount (afterExit 0 (Succeeded ''done'') oneJob) = - 1 \<and>
   activeDownloadCount (afterExit 0 (Failed ''killed'') oneJob) = - 1"
  by (simp add: oneJob_eq afterExit_def processTerminates_running)

text \<open>
  C2. The claim: \<open>0 \<le> activeDownloadCount \<le> 5\<close> at every observation point; six requests
  with no release in between admit exactly five; the count is back at 0 when every admitted
  job has released. The upper bound holds of the code (\<open>downloadMedia_capacity\<close>), the rest
  does not, through the double release of C1: after the first job has ended the count is
  negative, six further calls are then all admitted with none turned away, so that six
  children run at once, and when five admitted jobs have all ended the count is \<open>-5\<close>.
\<close>

theorem admission_bound_broken:
  "activeDownloadCount (afterExit 0 (Succeeded ''done'') oneJob) < 0 \<and>
   length (filter alive (children sixAfterOne)) = 6 \<and>
   outbox sixAfterOne = [] \<and>
   activeDownloadCount fiveJobs = 5 \<and>
   activeDownloadCount allDone = - 5"
  by (simp add: sixAfterOne_def allDone_def fiveJobs_def oneJob_def startup_def
        request_admitted afterExit_running)

section \<open>Normalising a URL\<close>

text \<open>
  C3, as amended. The claim reads: for every URL containing the marker
  \<^verbatim>\<open>youtube.com/shorts/\<close>, \<^verbatim>\<open>normalizeUrl\<close> returns the watch URL with the text after the marker,
  cut at the first question mark; every other URL is returned unchanged. The code tests
  for \<^verbatim>\<open>youtube.com/shorts/\<close> but splits at \<^verbatim>\<open>/shorts/\<close> and takes the second piece, so the
  first half holds when the \<^verbatim>\<open>/shorts/\<close> of the marker is the first one of the URL and no
  further \<^verbatim>\<open>/shorts/\<close> comes before the first question mark after it. The second half holds
  as it stands.
\<close>

theorem normalizeUrl_shorts:
  "(\<not> includesStr (p @ ''youtube.com/shorts'') ''/shorts/'' \<and>
    \<not> includesStr (takeWhile (\<lambda>c. c \<noteq> CHR ''?'') r) ''/shorts/'' \<longrightarrow>
      normalizeUrl (p @ ''youtube.com/shorts/'' @ r) =
        ''https://www.youtube.com/watch?v='' @ takeWhile (\<lambda>c. c \<noteq> CHR ''?'') r) \<and>
   (\<not> includesStr url ''youtube.com/shorts/'' \<longrightarrow> normalizeUrl url = url)"
proof (intro conjI impI)
  assume h: "\<not> includesStr (p @ ''youtube.com/shorts'') ''/shorts/'' \<and>
    \<not> includesStr (takeWhile (\<lambda>c. c \<noteq> CHR ''?'') r) ''/shorts/''"
  have "takeWhile (\<lambda>c. c \<noteq> CHR ''?'') (hd (splitFrom ''/shorts/'' [] r)) =
        takeWhile (\<lambda>c. c \<noteq> CHR ''?'') r"
    by (rule takeWhile_hd_splitFrom) (use h in simp_all)
  then show "normalizeUrl (p @ ''youtube.com/shorts/'' @ r) =
        ''https://www.youtube.com/watch?v='' @ takeWhile (\<lambda>c. c \<noteq> CHR ''?'') r"
    using normalizeUrl_marker[of p r] h by simp
next
  assume "\<not> includesStr url ''youtube.com/shorts/''"
  then show "normalizeUrl url = url" by (simp add: normalizeUrl_def)
qed

theorem normalizeUrl_shorts_witness:
  "\<not> includesStr (''https://www.'' @ ''youtube.com/shorts'') ''/shorts/'' \<and>
   \<not> includesStr (takeWhile (\<lambda>c. c \<noteq> CHR ''?'') ''abc?feature=share'') ''/shorts/'' \<and>
   normalizeUrl ''https://www.youtube.com/shorts/abc?feature=share'' =
     ''https://www.youtube.com/watch?v=abc'' \<and>
   \<not> includesStr ''https://vimeo.com/76979871'' ''youtube.com/shorts/'' \<and>
   normalizeUrl ''https://vimeo.com/76979871'' = ''https://vimeo.com/76979871''"
  using normalizeUrl_shorts[of "''https://www.''" "''abc?feature=share''" "''https://vimeo.com/76979871''"]
  by simp

text \<open>
  The claim C3 as it stands fails on a URL with an earlier \<^verbatim>\<open>/shorts/\<close>: the first one below
  contains the marker followed by \<^verbatim>\<open>abc\<close>, and the result carries \<^verbatim>\<open>zzz\<close>. It fails as well
  on a URL with a later \<^verbatim>\<open>/shorts/\<close>: in the second one the marker is followed by
  \<^verbatim>\<open>abc/shorts/def\<close> with no question mark, and the result carries \<^verbatim>\<open>abc\<close>.
\<close>

theorem normalizeUrl_counterexample:
  "includesStr ''https://a.com/shorts/zzz?u=youtube.com/shorts/abc'' ''youtube.com/shorts/'' \<and>
   ''https://a.com/shorts/zzz?u=youtube.com/shorts/abc'' =
      ''https://a.com/shorts/zzz?u='' @ ''youtube.com/shorts/'' @ ''abc'' \<and>
   normalizeUrl ''https://a.com/shorts/zzz?u=youtube.com/shorts/abc'' =
      ''https://www.youtube.com/watch?v=zzz'' \<and>
   ''https://youtube.com/shorts/abc/shorts/def'' =
      ''https://'' @ ''youtube.com/shorts/'' @ ''abc/shorts/def'' \<and>
   normalizeUrl ''https://youtube.com/shorts/abc/shorts/def'' =
      ''https://www.youtube.com/watch?v=abc''"
  by (simp add: normalizeUrl_def splitStr_def splitFrom.simps at_def)

section \<open>Supported domains\<close>

text \<open>
  C4. For every URL that the parser rejects, the \<^verbatim>\<open>try\<close> block of \<^verbatim>\<open>isSupportedDomain\<close> throws,
  the \<^verbatim>\<open>catch\<close> clause takes the throw, and the function returns \<^verbatim>\<open>false\<close>.
\<close>

theorem isSupportedDomain_fails_closed:
  "newURL E url = Inl e \<Longrightarrow>
   isSupportedDomain_try E url = Inl e \<and> isSupportedDomain E url = False"
  by (simp add: isSupportedDomain_try_def isSupportedDomain_def)

theorem isSupportedDomain_fails_closed_witness:
  "newURL sampleRuntime ''youtube.com/watch?v=abc'' = Inl (ErrorObject ''ERR_INVALID_URL'') \<and>
   isSupportedDomain_try sampleRuntime ''youtube.com/watch?v=abc'' =
     Inl (ErrorObject ''ERR_INVALID_URL'') \<and>
   isSupportedDomain sampleRuntime ''youtube.com/watch?v=abc'' = False"
proof -
  have h: "newURL sampleRuntime ''youtube.com/watch?v=abc'' = Inl (ErrorObject ''ERR_INVALID_URL'')"
    by (simp add: sampleRuntime_def sampleParser_def)
  show ?thesis using h isSupportedDomain_fails_closed[OF h] by simp
qed

text \<open>
  C5. For every URL that the parser accepts, \<^verbatim>\<open>isSupportedDomain\<close> returns \<^verbatim>\<open>true\<close> exactly
  when some entry of the allow-list occurs somewhere in the host name; so it does for the
  host \<^verbatim>\<open>notyoutube.com.evil.example\<close>, which belongs to none of the listed sites.
\<close>

theorem isSupportedDomain_substring:
  "newURL E url = Inr hostname \<Longrightarrow>
   (isSupportedDomain E url \<longleftrightarrow>
      (\<exists>domain \<in> set SUPPORTED_DOMAINS. \<exists>a b. hostname = a @ domain @ b)) \<and>
   (hostname = ''notyoutube.com.evil.example'' \<longrightarrow> isSupportedDomain E url)"
proof -
  assume h: "newURL E url = Inr hostname"
  have eq: "isSupportedDomain E url \<longleftrightarrow>
      (\<exists>domain \<in> set SUPPORTED_DOMAINS. \<exists>a b. hostname = a @ domain @ b)"
    using h by (simp add: isSupportedDomain_try_def isSupportedDomain_def list_ex_iff
        includesStr_iff)
  have "''notyoutube.com.evil.example'' = ''not'' @ ''youtube.com'' @ ''.evil.example''"
    by simp
  moreover have "''youtube.com'' \<in> set SUPPORTED_DOMAINS"
    by (simp add: SUPPORTED_DOMAINS_def)
  ultimately have "hostname = ''notyoutube.com.evil.example'' \<longrightarrow> isSupportedDomain E url"
    unfolding eq by blast
  with eq show ?thesis by blast
qed

theorem isSupportedDomain_substring_witness:
  "newURL sampleRuntime ''https://notyoutube.com.evil.example/watch?v=abc'' =
     Inr ''notyoutube.com.evil.example'' \<and>
   isSupportedDomain sampleRuntime ''https://notyoutube.com.evil.example/watch?v=abc''"
proof -
  have h: "newURL sampleRuntime ''https://notyoutube.com.evil.example/watch?v=abc'' =
     Inr ''notyoutube.com.evil.example''"
    by (simp add: sampleRuntime_def sampleParser_def)
  show ?thesis using h isSupportedDomain_substring[OF h] by blast
qed

section \<open>A request turned away at capacity\<close>

text \<open>
  C6. The claim: every terminal outcome sends the requester exactly one notice; a request
  turned away at capacity gets the single notice that the queue is full, no process is
  started, and neither transmission nor deletion is attempted. The code does not stop
  there. \<^verbatim>\<open>downloadMedia\<close> sends the notice and returns \<^verbatim>\<open>undefined\<close>, no child is started, but
  the handler awaits that value and goes on: it calls \<^verbatim>\<open>bot.sendAudio\<close> with \<^verbatim>\<open>undefined\<close> as
  the file, and whether that transmission succeeds (then \<^verbatim>\<open>fs.unlinkSync(undefined)\<close> throws)
  or fails, the \<^verbatim>\<open>catch\<close> clause sends the requester one more message.
\<close>

theorem queue_full_runs_on:
  "fst (onAudioVideo sampleRuntime Audio ''https://youtu.be/abc123'' 9 1700000000005 fiveJobs) =
     Some ReturnedUndefined \<and>
   outbox turnedAway = [(9, Downloading True), (9, QueueFull)] \<and>
   children turnedAway = children fiveJobs \<and>
   fst (afterDownload 9 True (Resolved None) turnedAway) = Some None \<and>
   transmissions turnedAwayOn = [(9, True, None)] \<and>
   outbox (afterTransmission 9 None None turnedAwayOn) =
     [(9, Downloading True), (9, QueueFull), (9, Caught (ErrorObject ''ERR_INVALID_ARG_TYPE''))] \<and>
   outbox (afterTransmission 9 None (Some (ErrorObject ''ETELEGRAM'')) turnedAwayOn) =
     [(9, Downloading True), (9, QueueFull), (9, Caught (ErrorObject ''ETELEGRAM''))]"
proof -
  have t: "transmissions fiveJobs = []"
    by (simp add: fiveJobs_def oneJob_def startup_def request_admitted)
  show ?thesis
    by (simp add: turnedAway_def turnedAwayOn_def turnedAway_eq afterDownload_def
        afterTransmission_def unlinkSync_def catchClause_def sendMessage_def t)
qed

section \<open>Stopping\<close>

text \<open>
  C7. When \<^verbatim>\<open>/stop\<close> arrives while no child is registered, the handler sends the notice that
  no download is in progress and changes nothing else. When a child is registered, the
  handler sends it \<^verbatim>\<open>SIGINT\<close> and clears the registry at once; the counter, the children and
  the files are as before, whatever the child does about the signal.
\<close>

theorem onStop_registry:
  "(currentDownloadProcess s = None \<longrightarrow>
      onStop chatId s = s\<lparr>outbox := outbox s @ [(chatId, NoDownload)]\<rparr>) \<and>
   (currentDownloadProcess s = Some pid \<longrightarrow>
      onStop chatId s =
        s\<lparr>signals := signals s @ [(pid, ''SIGINT'')], currentDownloadProcess := None,
          outbox := outbox s @ [(chatId, Stopped)]\<rparr>) \<and>
   activeDownloadCount (onStop chatId s) = activeDownloadCount s \<and>
   children (onStop chatId s) = children s \<and>
   files (onStop chatId s) = files s"
  by (cases "currentDownloadProcess s") (simp_all add: onStop_def sendMessage_def)

theorem onStop_registry_witness:
  "currentDownloadProcess startup = None \<and>
   onStop 7 startup = startup\<lparr>outbox := [(7, NoDownload)]\<rparr> \<and>
   currentDownloadProcess oneJob = Some 0 \<and>
   onStop 7 oneJob =
     oneJob\<lparr>signals := [(0, ''SIGINT'')], currentDownloadProcess := None,
       outbox := [(7, Stopped)]\<rparr> \<and>
   map alive (children (onStop 7 oneJob)) = [True]"
  using onStop_registry[of startup 7 0] onStop_registry[of oneJob 7 0]
  by (simp add: oneJob_eq) (simp add: startup_def)

section \<open>Cleaning up after delivery\<close>

text \<open>
  C8. A downloaded file is handed to the transmission for the requester. When it exists as
  the transmission settles, it is deleted exactly when the transmission succeeded, and then
  nothing else changes; when the transmission failed, nothing is deleted, the file stays,
  and the requester is sent the error (or the fallback text when the error is falsy).
\<close>

theorem afterTransmission_cleanup:
  "p \<in> files s \<Longrightarrow>
   afterDownload chatId isAudio (Resolved (Some p)) s =
     (Some (Some p), s\<lparr>transmissions := transmissions s @ [(chatId, isAudio, Some p)]\<rparr>) \<and>
   (p \<in> files (afterTransmission chatId (Some p) tx s) \<longleftrightarrow> tx \<noteq> None) \<and>
   (tx = None \<longrightarrow> afterTransmission chatId (Some p) tx s = s\<lparr>files := files s - {p}\<rparr>) \<and>
   (\<forall>e. tx = Some e \<longrightarrow>
      afterTransmission chatId (Some p) tx s =
        s\<lparr>outbox := outbox s @ [(chatId, if truthy e then Caught e else DownloadFailed)]\<rparr>)"
  by (cases tx)
     (simp_all add: afterDownload_def afterTransmission_def unlinkSync_def catchClause_def
        sendMessage_def)

theorem afterTransmission_cleanup_witness:
  "''/srv/bot/downloads/1700000000000.mp3'' \<in> files (startup\<lparr>files := {''/srv/bot/downloads/1700000000000.mp3''}\<rparr>) \<and>
   afterTransmission 7 (Some ''/srv/bot/downloads/1700000000000.mp3'') None
     (startup\<lparr>files := {''/srv/bot/downloads/1700000000000.mp3''}\<rparr>) = startup \<and>
   afterTransmission 7 (Some ''/srv/bot/downloads/1700000000000.mp3'')
     (Some (ErrorObject ''ETELEGRAM''))
     (startup\<lparr>files := {''/srv/bot/downloads/1700000000000.mp3''}\<rparr>) =
     startup\<lparr>files := {''/srv/bot/downloads/1700000000000.mp3''},
       outbox := [(7, Caught (ErrorObject ''ETELEGRAM''))]\<rparr>"
proof -
  let ?p = "''/srv/bot/downloads/1700000000000.mp3''"
  let ?s = "startup\<lparr>files := {?p}\<rparr>"
  have h: "?p \<in> files ?s" by simp
  show ?thesis
    using h afterTransmission_cleanup[OF h, of 7 True None]
      afterTransmission_cleanup[OF h, of 7 True "Some (ErrorObject ''ETELEGRAM'')"]
    by (simp add: startup_def)
qed

section \<open>Output paths\<close>

text \<open>
  C9, as amended. The claim reads: two distinct admitted jobs never receive the same output
  path. The code names the file by the clock reading in milliseconds and the extension, and
  nothing else. So the path of an admitted job is the download directory joined with the
  decimal clock reading, a dot and \<^verbatim>\<open>mp3\<close> or \<^verbatim>\<open>mp4\<close>, and two admitted jobs have the same path
  exactly when they were admitted at the same clock reading with the same kind of media.
\<close>

theorem output_paths_equal_iff:
  assumes "downloadMedia E url1 format1 isAudio1 chatId1 now1 s1 = (Pending pid1, s1')"
      and "downloadMedia E url2 format2 isAudio2 chatId2 now2 s2 = (Pending pid2, s2')"
  shows "map_option outputPath (at (children s1') pid1) =
           Some (pathJoin (downloadsDir E)
                  (showNat now1 @ ''.'' @ (if isAudio1 then ''mp3'' else ''mp4''))) \<and>
         (map_option outputPath (at (children s1') pid1) =
            map_option outputPath (at (children s2') pid2)
          \<longleftrightarrow> now1 = now2 \<and> isAudio1 = isAudio2)"
proof -
  have p1: "map_option outputPath (at (children s1') pid1) = Some (outputFile E now1 isAudio1)"
    by (rule downloadMedia_Pending[OF assms(1)])
  have p2: "map_option outputPath (at (children s2') pid2) = Some (outputFile E now2 isAudio2)"
    by (rule downloadMedia_Pending[OF assms(2)])
  have n: "outputFile E now1 isAudio1 =
      pathJoin (downloadsDir E) (showNat now1 @ ''.'' @ (if isAudio1 then ''mp3'' else ''mp4''))"
    by (simp add: outputFile_def)
  have "Some (outputFile E now1 isAudio1) = Some (outputFile E now2 isAudio2)
      \<longleftrightarrow> now1 = now2 \<and> isAudio1 = isAudio2"
    by (simp only: outputFile_eq_iff option.inject)
  then show ?thesis
    unfolding p1 p2 using n by blast
qed

theorem output_paths_equal_iff_witness:
  "downloadMedia sampleRuntime ''https://youtu.be/abc123'' ''bestaudio'' True 7
      1700000000000 startup = (Pending 0, oneJob) \<and>
   downloadMedia sampleRuntime ''https://youtu.be/abc123'' ''bestaudio'' True 7
      1700000000001 oneJob = (Pending 1, request 1700000000001 oneJob) \<and>
   map_option outputPath (at (children oneJob) 0) =
     Some ''/srv/bot/downloads/1700000000000.mp3'' \<and>
   map_option outputPath (at (children oneJob) 0) \<noteq>
     map_option outputPath (at (children (request 1700000000001 oneJob)) 1)"
proof -
  have a: "downloadMedia sampleRuntime ''https://youtu.be/abc123'' ''bestaudio'' True 7
      1700000000000 startup = (Pending 0, oneJob)"
    by (simp add: oneJob_def request_def downloadMedia_admitted startup_def)
  have b: "downloadMedia sampleRuntime ''https://youtu.be/abc123'' ''bestaudio'' True 7
      1700000000001 oneJob = (Pending 1, request 1700000000001 oneJob)"
    by (simp add: request_def downloadMedia_admitted oneJob_eq)
  have c: "map_option outputPath (at (children oneJob) 0) =
     Some ''/srv/bot/downloads/1700000000000.mp3''"
    by (simp add: oneJob_eq at_def)
  show ?thesis
    using a b c output_paths_equal_iff[OF a b] by simp
qed

text \<open>
  The claim C9 as it stands fails for two audio requests within one millisecond: the
  children 0 and 1 are given the same path.
\<close>

theorem same_millisecond_same_path:
  "fst (downloadMedia sampleRuntime ''https://youtu.be/abc123'' ''bestaudio'' True 7
          1700000000000 startup) = Pending 0 \<and>
   fst (downloadMedia sampleRuntime ''https://youtu.be/abc123'' ''bestaudio'' True 7
          1700000000000 oneJob) = Pending 1 \<and>
   map outputPath (children (request 1700000000000 oneJob)) =
     [''/srv/bot/downloads/1700000000000.mp3'', ''/srv/bot/downloads/1700000000000.mp3'']"
  by (simp add: oneJob_eq request_admitted downloadMedia_admitted startup_def)
     (simp add: outputFile_def pathJoin_def sampleRuntime_def showNat.simps digitChar_def)

section \<open>Messages without text\<close>

text \<open>
  C10. For a message without a text the fallback handler throws a \<^verbatim>\<open>TypeError\<close> and sends
  nothing. For a non-empty text that, in lower case and trimmed, is neither a greeting nor
  starts with a slash, it sends the invalid-command notice, once, and does nothing else.
\<close>

theorem onMessage_fallback:
  "(msg_text msg = None \<longrightarrow> onMessage E msg s = Threw (ErrorObject ''TypeError'') s) \<and>
   (msg_text msg = Some t \<and> t \<noteq> [] \<and>
    trim E (toLowerCase E t) \<noteq> ''hi'' \<and> trim E (toLowerCase E t) \<noteq> ''hello'' \<and>
    \<not> startsWith (trim E (toLowerCase E t)) ''/'' \<longrightarrow>
      onMessage E msg s =
        Returned (s\<lparr>outbox := outbox s @ [(chat_id msg, InvalidCommand)]\<rparr>))"
  by (simp add: onMessage_def sendMessage_def Let_def)

theorem onMessage_fallback_witness:
  "msg_text \<lparr>chat_id = 7, first_name = None, msg_text = None\<rparr> = None \<and>
   onMessage sampleRuntime \<lparr>chat_id = 7, first_name = None, msg_text = None\<rparr> startup =
     Threw (ErrorObject ''TypeError'') startup \<and>
   trim sampleRuntime (toLowerCase sampleRuntime ''What is this'') = ''what is this'' \<and>
   onMessage sampleRuntime \<lparr>chat_id = 7, first_name = None, msg_text = Some ''What is this''\<rparr>
     startup = Returned (startup\<lparr>outbox := [(7, InvalidCommand)]\<rparr>)"
proof -
  have l: "trim sampleRuntime (toLowerCase sampleRuntime ''What is this'') = ''what is this''"
    by (simp add: sampleRuntime_def sampleLower_def sampleTrim_def)
  show ?thesis
    using l
      onMessage_fallback[of "\<lparr>chat_id = 7, first_name = None, msg_text = None\<rparr>"
        sampleRuntime startup "''What is this''"]
      onMessage_fallback[of "\<lparr>chat_id = 7, first_name = None, msg_text = Some ''What is this''\<rparr>"
        sampleRuntime startup "''What is this''"]
    by (simp add: startup_def)
qed

end
